theory Spec2Isabelle
  imports Main
begin

section \<open>Data model of the table store (src/src/contexts/DataContext.tsx)\<close>

text \<open>
  The store is the React provider \<open>DataProvider\<close>. Its state (\<open>tables\<close>,
  \<open>currentTableId\<close>) and what it uses of its collaborators (the signed-in user of
  \<open>useAuth\<close>, the audit log of \<open>useAudit\<close>, the notifications of \<open>toast\<close>) are
  one record that every operation takes and returns. Each operation is run on the state
  left by the previous one (one operation per render).

  Conventions of the embedding:
  \<^item> row and column positions are array indices (\<open>nat\<close>), which is what the grid
    passes; negative and fractional numbers are outside the model; lists are unbounded;
  \<^item> \<open>new Date()\<close> is the parameter \<open>now\<close>, \<open>crypto.randomUUID()\<close> the parameter \<open>newId\<close>;
  \<^item> a numeric cell value and the table version are \<open>int\<close>: no operation of the store
    computes on a cell value, and the version only counts up from 1;
  \<^item> a thrown exception is the \<open>Inl\<close> branch of the result;
  \<^item> a template literal is kept as the list of its pieces, in order;
  \<^item> field names that two types share are told apart: \<open>hvalue\<close> is the \<open>value\<close> of a
    history entry; \<open>tid\<close>, \<open>tname\<close>, \<open>tconfirmed\<close>, \<open>tconfirmedBy\<close>, \<open>tconfirmedAt\<close>
    and \<open>tconfirmedComments\<close> are the \<open>id\<close>, \<open>name\<close> and confirmation fields of a
    table; \<open>uid\<close>, \<open>uname\<close> and \<open>upermissions\<close> are the \<open>id\<close>, \<open>name\<close> and
    \<open>permissions\<close> of a user. An optional field is an \<open>option\<close>.
\<close>

datatype CellValue = VString string | VNumber int | VBoolean bool | VNull

record CellHistoryEntry =
  hvalue :: CellValue
  timestamp :: nat
  userId :: string

record CellPermissions =
  roles :: "string list"
  editable :: bool
  viewable :: bool

record Cell =
  "value" :: CellValue
  confirmed :: bool
  confirmedBy :: "string option"
  confirmedAt :: "nat option"
  confirmedComments :: "string option"
  permissions :: "CellPermissions option"
  history :: "CellHistoryEntry list"

text \<open>
  A row is a JavaScript array of cells. A position of it holds a cell, or is a hole (left
  by a write beyond the end), or holds \<open>undefined\<close> (what spreading a row with holes
  produces). Reading a hole or \<open>undefined\<close> gives \<open>undefined\<close>.
\<close>

datatype slot = Hole | Undefined | Elem Cell

type_synonym Row = "slot list"

record TableData =
  tid :: string
  tname :: string
  headers :: "string list"
  rows :: "Row list"
  tconfirmed :: bool
  tconfirmedBy :: "string option"
  tconfirmedAt :: "nat option"
  tconfirmedComments :: "string option"
  version :: int

text \<open>The user record of the authentication context (\<open>UserRole\<close>, \<open>User\<close>).\<close>

datatype UserRole = Admin | DpTeam | QaTeam | Viewer

fun roleName :: "UserRole \<Rightarrow> string" where
  "roleName Admin = ''admin''"
| "roleName DpTeam = ''dp_team''"
| "roleName QaTeam = ''qa_team''"
| "roleName Viewer = ''viewer''"

record User =
  uid :: string
  uname :: string
  email :: string
  role :: UserRole
  upermissions :: "string list"

datatype piece = Lit string | Str string | Num int | Json CellValue

datatype level = Success | Error | Info

record LogEntry =
  action :: string
  resource :: string
  details :: "piece list"

record State =
  tables :: "TableData list"
  currentTableId :: "string option"
  user :: "User option"
  auditLog :: "LogEntry list"
  toasts :: "(level \<times> piece list) list"

datatype js_error = TypeError

text \<open>
  Modelled from the spec: the audit context (\<open>useAudit\<close>) is not part of the sources;
  \<open>addLog\<close> appends one record of action kind, resource kind and detail text to the log.
\<close>

definition addLog :: "string \<Rightarrow> string \<Rightarrow> piece list \<Rightarrow> State \<Rightarrow> State" where
  "addLog a r d s = s\<lparr>auditLog := auditLog s @ [\<lparr>action = a, resource = r, details = d\<rparr>]\<rparr>"

definition toast :: "level \<Rightarrow> piece list \<Rightarrow> State \<Rightarrow> State" where
  "toast l m s = s\<lparr>toasts := toasts s @ [(l, m)]\<rparr>"

subsection \<open>Array access\<close>

text \<open>\<open>row[colIndex]\<close>: the cell there, or \<open>undefined\<close> (\<open>None\<close>).\<close>

definition elemAt :: "Row \<Rightarrow> nat \<Rightarrow> Cell option" where
  "elemAt row colIndex =
     (if colIndex < length row
      then (case row ! colIndex of Elem c \<Rightarrow> Some c | _ \<Rightarrow> None)
      else None)"

text \<open>\<open>rows[rowIndex]?.[colIndex]\<close>: \<open>undefined\<close> when the row is missing.\<close>

definition cellAt :: "Row list \<Rightarrow> nat \<Rightarrow> nat \<Rightarrow> Cell option" where
  "cellAt rs rowIndex colIndex =
     (if rowIndex < length rs then elemAt (rs ! rowIndex) colIndex else None)"

text \<open>
  \<open>row[colIndex] = c\<close>: inside the array it replaces the position; beyond the end the
  array grows to \<open>colIndex + 1\<close> and the positions in between are holes.
\<close>

definition setIndex :: "Row \<Rightarrow> nat \<Rightarrow> Cell \<Rightarrow> Row" where
  "setIndex row colIndex c =
     (if colIndex < length row then row[colIndex := Elem c]
      else row @ replicate (colIndex - length row) Hole @ [Elem c])"

text \<open>\<open>[...row]\<close>: the copy has \<open>undefined\<close> where the row has a hole.\<close>

fun spread :: "Row \<Rightarrow> Row" where
  "spread [] = []"
| "spread (Hole # xs) = Undefined # spread xs"
| "spread (x # xs) = x # spread xs"

definition emptyCell :: Cell where
  "emptyCell = \<lparr>value = VNull, confirmed = False, confirmedBy = None, confirmedAt = None,
     confirmedComments = None, permissions = None, history = []\<rparr>"

text \<open>\<open>Array(n).fill(null).map(() => ({value: null, confirmed: false, history: []}))\<close>\<close>

definition emptyRow :: "nat \<Rightarrow> Row" where
  "emptyRow n = replicate n (Elem emptyCell)"

subsection \<open>The current table\<close>

definition currentTable :: "State \<Rightarrow> TableData option" where
  "currentTable s =
     (case currentTableId s of
        None \<Rightarrow> None
      | Some i \<Rightarrow> find (\<lambda>table. tid table = i) (tables s))"

text \<open>
  \<open>setTables(tables.map(table => table.id === currentTableId ? f(table) : table))\<close>
\<close>

definition mapCurrent :: "(TableData \<Rightarrow> TableData) \<Rightarrow> State \<Rightarrow> State" where
  "mapCurrent f s =
     s\<lparr>tables := map (\<lambda>table. if Some (tid table) = currentTableId s then f table else table)
                     (tables s)\<rparr>"

section \<open>Permission engine\<close>

definition canEditCell :: "State \<Rightarrow> nat \<Rightarrow> nat \<Rightarrow> bool" where
  "canEditCell s rowIndex colIndex =
     (case currentTable s of
        None \<Rightarrow> False
      | Some t \<Rightarrow>
       (case user s of
          None \<Rightarrow> False
        | Some u \<Rightarrow>
            if role u = Admin then True
            else (case cellAt (rows t) rowIndex colIndex of
                    None \<Rightarrow> True
                  | Some cell \<Rightarrow>
                     (case permissions cell of
                        Some p \<Rightarrow> roleName (role u) \<in> set (roles p) \<and> editable p
                      | None \<Rightarrow> role u = DpTeam))))"

definition canViewCell :: "State \<Rightarrow> nat \<Rightarrow> nat \<Rightarrow> bool" where
  "canViewCell s rowIndex colIndex =
     (case currentTable s of
        None \<Rightarrow> False
      | Some t \<Rightarrow>
       (case user s of
          None \<Rightarrow> False
        | Some u \<Rightarrow>
            if role u = Admin then True
            else (case cellAt (rows t) rowIndex colIndex of
                    None \<Rightarrow> True
                  | Some cell \<Rightarrow>
                     (case permissions cell of
                        Some p \<Rightarrow> roleName (role u) \<in> set (roles p) \<and> viewable p
                      | None \<Rightarrow> True))))"

section \<open>Cell mutation and confirmation\<close>

text \<open>
  The loop of \<open>updateCell\<close> that grows the copy of the rows:
  \<open>while (updatedRows.length <= rowIndex) updatedRows.push(emptyRow)\<close>.
\<close>

function pushRows :: "Row list \<Rightarrow> nat \<Rightarrow> nat \<Rightarrow> Row list" where
  "pushRows updatedRows rowIndex n =
     (if length updatedRows \<le> rowIndex
      then pushRows (updatedRows @ [emptyRow n]) rowIndex n
      else updatedRows)"
  by pat_completeness auto
termination
  by (relation "measure (\<lambda>(rs, r, n). Suc r - length rs)") auto

declare pushRows.simps [simp del]

definition updateCell ::
  "State \<Rightarrow> nat \<Rightarrow> nat \<Rightarrow> nat \<Rightarrow> CellValue \<Rightarrow> js_error + (bool \<times> State)" where
  "updateCell s now rowIndex colIndex v =
     (case currentTable s of
        None \<Rightarrow> Inr (False, s)
      | Some t \<Rightarrow>
       (case user s of
          None \<Rightarrow> Inr (False, s)
        | Some u \<Rightarrow>
            if \<not> canEditCell s rowIndex colIndex
            then Inr (False, toast Error [Lit ''You don't have permission to edit this cell''] s)
            else if (case cellAt (rows t) rowIndex colIndex of
                       None \<Rightarrow> False | Some cell \<Rightarrow> confirmed cell)
            then Inr (False, toast Error [Lit ''This cell is confirmed and cannot be edited''] s)
            else
              let updatedRows =
                    (if \<not> rowIndex < length (rows t)
                     then pushRows (rows t) rowIndex (length (headers t))
                     else rows t);
                  currentCell =
                    (case elemAt (updatedRows ! rowIndex) colIndex of
                       Some c \<Rightarrow> c | None \<Rightarrow> emptyCell);
                  historyEntry = \<lparr>hvalue = value currentCell, timestamp = now, userId = uid u\<rparr>;
                  updatedRows' = updatedRows[rowIndex :=
                    setIndex (updatedRows ! rowIndex) colIndex
                      (currentCell\<lparr>value := v, history := history currentCell @ [historyEntry]\<rparr>)]
              in Inr (True,
                   addLog ''update'' ''cell''
                     [Lit ''Updated cell at ['', Num (int rowIndex), Lit '','', Num (int colIndex),
                      Lit ''] in table \"'', Str (tname t), Lit ''\" from '',
                      Json (value currentCell), Lit '' to '', Json v]
                     (mapCurrent (\<lambda>table. table\<lparr>rows := updatedRows'\<rparr>) s))))"

definition confirmCell ::
  "State \<Rightarrow> nat \<Rightarrow> nat \<Rightarrow> nat \<Rightarrow> string option \<Rightarrow> js_error + State" where
  "confirmCell s now rowIndex colIndex comments =
     (case currentTable s of
        None \<Rightarrow> Inr s
      | Some t \<Rightarrow>
       (case user s of
          None \<Rightarrow> Inr s
        | Some u \<Rightarrow>
            if ''confirm_data'' \<notin> set (upermissions u)
            then Inr (toast Error [Lit ''You don't have permission to confirm data''] s)
            else if \<not> rowIndex < length (rows t) then Inl TypeError
            else
              (case elemAt (rows t ! rowIndex) colIndex of
                 None \<Rightarrow> Inr s
               | Some currentCell \<Rightarrow>
                   let updatedRows = (rows t)[rowIndex :=
                         setIndex (rows t ! rowIndex) colIndex
                           (currentCell\<lparr>confirmed := True, confirmedBy := Some (uid u),
                              confirmedAt := Some now, confirmedComments := comments\<rparr>)]
                   in Inr (toast Success [Lit ''Cell confirmed successfully'']
                        (addLog ''confirm'' ''cell''
                           [Lit ''Confirmed cell at ['', Num (int rowIndex), Lit '','',
                            Num (int colIndex), Lit ''] in table \"'', Str (tname t), Lit ''\"'']
                           (mapCurrent (\<lambda>table. table\<lparr>rows := updatedRows\<rparr>) s))))))"

text \<open>
  In \<open>confirmCell\<close> and \<open>setCellPermissions\<close> the cell is read as
  \<open>updatedRows[rowIndex][colIndex]\<close>, without the \<open>?.\<close> of \<open>updateCell\<close> and of the
  permission engine: with no row at \<open>rowIndex\<close> the read of \<open>[colIndex]\<close> on
  \<open>undefined\<close> throws a TypeError.
\<close>

definition setCellPermissions ::
  "State \<Rightarrow> nat \<Rightarrow> nat \<Rightarrow> CellPermissions \<Rightarrow> js_error + State" where
  "setCellPermissions s rowIndex colIndex perms =
     (case currentTable s of
        None \<Rightarrow> Inr s
      | Some t \<Rightarrow>
       (case user s of
          None \<Rightarrow> Inr s
        | Some u \<Rightarrow>
            if role u \<noteq> Admin
            then Inr (toast Error [Lit ''Only admins can set cell permissions''] s)
            else if \<not> rowIndex < length (rows t) then Inl TypeError
            else
              (case elemAt (rows t ! rowIndex) colIndex of
                 None \<Rightarrow> Inr s
               | Some currentCell \<Rightarrow>
                   let updatedRows = (rows t)[rowIndex :=
                         setIndex (rows t ! rowIndex) colIndex
                           (currentCell\<lparr>permissions := Some perms\<rparr>)]
                   in Inr (toast Success [Lit ''Cell permissions updated successfully'']
                        (addLog ''update'' ''permissions''
                           [Lit ''Updated permissions for cell at ['', Num (int rowIndex), Lit '','',
                            Num (int colIndex), Lit ''] in table \"'', Str (tname t), Lit ''\"'']
                           (mapCurrent (\<lambda>table. table\<lparr>rows := updatedRows\<rparr>) s))))))"

section \<open>Table store\<close>

definition defaultPermissions :: "nat \<Rightarrow> CellPermissions" where
  "defaultPermissions colIndex =
     (if colIndex mod 3 = 0
      then \<lparr>roles = [''admin'', ''dp_team''], editable = True, viewable = True\<rparr>
      else if colIndex mod 3 = 1
      then \<lparr>roles = [''admin'', ''dp_team'', ''qa_team''], editable = True, viewable = True\<rparr>
      else \<lparr>roles = [''admin'', ''qa_team''], editable = False, viewable = True\<rparr>)"

text \<open>
  \<open>row.map((cell, colIndex) => ...)\<close> on a row of cells: the callback gets each cell with
  its position.
\<close>

definition withIndex :: "'a list \<Rightarrow> ('a \<times> nat) list" where
  "withIndex xs = zip xs [0..<length xs]"

definition createTable ::
  "State \<Rightarrow> string \<Rightarrow> string \<Rightarrow> string list \<Rightarrow> nat option \<Rightarrow> js_error + State" where
  "createTable s newId name hs initialRowsArg =
     (case user s of
        None \<Rightarrow> Inr s
      | Some u \<Rightarrow>
          let initialRows = (case initialRowsArg of None \<Rightarrow> 10 | Some n \<Rightarrow> n);
              emptyRows = replicate initialRows (map (\<lambda>_. emptyCell) hs);
              rs = map (\<lambda>row. map (\<lambda>(cell, colIndex).
                          Elem (cell\<lparr>permissions := Some (defaultPermissions colIndex)\<rparr>))
                        (withIndex row)) emptyRows;
              newTable = \<lparr>tid = newId, tname = name, headers = hs, rows = rs,
                 tconfirmed = False, tconfirmedBy = None, tconfirmedAt = None,
                 tconfirmedComments = None, version = 1\<rparr>
          in Inr (toast Success
                    [Lit ''Table \"'', Str name, Lit ''\" created successfully with '',
                     Num (int initialRows), Lit '' empty rows'']
                (addLog ''create'' ''table'' [Lit ''Created new table: '', Str name]
                  (s\<lparr>tables := tables s @ [newTable], currentTableId := Some newId\<rparr>))))"

definition selectTable :: "State \<Rightarrow> string \<Rightarrow> js_error + State" where
  "selectTable s i =
     (case find (\<lambda>table. tid table = i) (tables s) of
        None \<Rightarrow> Inr s
      | Some table \<Rightarrow>
          Inr (addLog ''read'' ''table'' [Lit ''Selected table: '', Str (tname table)]
                (s\<lparr>currentTableId := Some i\<rparr>)))"

definition confirmTable :: "State \<Rightarrow> nat \<Rightarrow> string option \<Rightarrow> js_error + State" where
  "confirmTable s now comments =
     (case currentTable s of
        None \<Rightarrow> Inr s
      | Some t \<Rightarrow>
       (case user s of
          None \<Rightarrow> Inr s
        | Some u \<Rightarrow>
            if ''confirm_data'' \<notin> set (upermissions u)
            then Inr (toast Error [Lit ''You don't have permission to confirm data''] s)
            else
              let updatedTable = t\<lparr>tconfirmed := True, tconfirmedBy := Some (uid u),
                    tconfirmedAt := Some now, tconfirmedComments := comments,
                    version := version t + 1\<rparr>
              in Inr (toast Success
                        [Lit ''Table confirmed successfully (version '',
                         Num (version updatedTable), Lit '')'']
                    (addLog ''confirm'' ''table''
                       [Lit ''Confirmed table \"'', Str (tname t), Lit ''\" (version '',
                        Num (version updatedTable), Lit '')'']
                       (mapCurrent (\<lambda>table. updatedTable) s)))))"

definition exportTableToPDF :: "State \<Rightarrow> js_error + State" where
  "exportTableToPDF s =
     (case currentTable s of
        None \<Rightarrow> Inr s
      | Some t \<Rightarrow>
          Inr (toast Info
                 [Lit ''In a real app, this would generate a PDF with proper headers, footers, and signatures.'']
              (toast Success [Lit ''PDF export initiated. Check downloads folder.'']
                (addLog ''export'' ''pdf''
                   [Lit ''Exported table \"'', Str (tname t), Lit ''\" to PDF''] s))))"

definition addRow :: "State \<Rightarrow> js_error + State" where
  "addRow s =
     (case currentTable s of
        None \<Rightarrow> Inr s
      | Some t \<Rightarrow>
       (case user s of
          None \<Rightarrow> Inr s
        | Some u \<Rightarrow>
            let newRow = emptyRow (length (headers t));
                updatedRows = rows t @ [newRow]
            in Inr (addLog ''create'' ''row''
                      [Lit ''Added new row to table \"'', Str (tname t), Lit ''\"'']
                      (mapCurrent (\<lambda>table. table\<lparr>rows := updatedRows\<rparr>) s))))"

definition addColumn :: "State \<Rightarrow> string \<Rightarrow> js_error + State" where
  "addColumn s header =
     (case currentTable s of
        None \<Rightarrow> Inr s
      | Some t \<Rightarrow>
       (case user s of
          None \<Rightarrow> Inr s
        | Some u \<Rightarrow>
            let updatedHeaders = headers t @ [header];
                updatedRows = map (\<lambda>row. spread row @ [Elem emptyCell]) (rows t)
            in Inr (toast Success [Lit ''Column \"'', Str header, Lit ''\" added successfully'']
                  (addLog ''create'' ''column''
                     [Lit ''Added new column \"'', Str header, Lit ''\" to table \"'',
                      Str (tname t), Lit ''\"'']
                     (mapCurrent (\<lambda>table. table\<lparr>headers := updatedHeaders, rows := updatedRows\<rparr>)
                        s)))))"

section \<open>CSV export (src/src/App.tsx, handleExportCSV)\<close>

text \<open>
  The model computes \<open>csvContent\<close>, the text of the downloaded blob. The conversion of
  a number to a string, which \<open>join\<close> applies, is the parameter \<open>numToString\<close>.
\<close>

text \<open>\<open>value.replace(/"/g, '""')\<close>\<close>

definition doubleQuotes :: "string \<Rightarrow> string" where
  "doubleQuotes x = concat (map (\<lambda>ch. if ch = CHR 0x22 then [CHR 0x22, CHR 0x22] else [ch]) x)"

text \<open>The text that \<open>join\<close> writes for one cell: the callback of \<open>row.map\<close>, then \<open>String\<close>.\<close>

definition csvField :: "(int \<Rightarrow> string) \<Rightarrow> Cell \<Rightarrow> string" where
  "csvField numToString cell =
     (case value cell of
        VNull \<Rightarrow> []
      | VString x \<Rightarrow>
          if CHR '','' \<in> set x \<or> CHR 0x22 \<in> set x
          then [CHR 0x22] @ doubleQuotes x @ [CHR 0x22]
          else x
      | VNumber n \<Rightarrow> numToString n
      | VBoolean b \<Rightarrow> (if b then ''true'' else ''false''))"

text \<open>
  \<open>row.map\<close> skips a hole, which \<open>join\<close> then writes as the empty string; on a position
  holding \<open>undefined\<close> the callback reads \<open>cell.value\<close> and throws.
\<close>

fun rowData :: "(int \<Rightarrow> string) \<Rightarrow> Row \<Rightarrow> js_error + string list" where
  "rowData numToString [] = Inr []"
| "rowData numToString (Hole # xs) =
     (case rowData numToString xs of Inl e \<Rightarrow> Inl e | Inr fs \<Rightarrow> Inr ([] # fs))"
| "rowData numToString (Undefined # xs) = Inl TypeError"
| "rowData numToString (Elem cell # xs) =
     (case rowData numToString xs of
        Inl e \<Rightarrow> Inl e
      | Inr fs \<Rightarrow> Inr (csvField numToString cell # fs))"

text \<open>\<open>xs.join(',')\<close>\<close>

fun join :: "string list \<Rightarrow> string" where
  "join [] = []"
| "join [x] = x"
| "join (x # y # ys) = x @ '','' @ join (y # ys)"

text \<open>\<open>selectedTable.rows.forEach(row => { csvContent += rowData.join(',') + '\n' })\<close>\<close>

fun csvRows :: "(int \<Rightarrow> string) \<Rightarrow> string \<Rightarrow> Row list \<Rightarrow> js_error + string" where
  "csvRows numToString csvContent [] = Inr csvContent"
| "csvRows numToString csvContent (row # rs) =
     (case rowData numToString row of
        Inl e \<Rightarrow> Inl e
      | Inr fs \<Rightarrow> csvRows numToString (csvContent @ join fs @ [CHR 0x0A]) rs)"

definition handleExportCSV ::
  "(int \<Rightarrow> string) \<Rightarrow> bool \<Rightarrow> TableData option \<Rightarrow> js_error + string option" where
  "handleExportCSV numToString includeHeaders selectedTable =
     (case selectedTable of
        None \<Rightarrow> Inr None
      | Some t \<Rightarrow>
          let csvContent = (if includeHeaders then join (headers t) @ [CHR 0x0A] else [])
          in (case csvRows numToString csvContent (rows t) of
                Inl e \<Rightarrow> Inl e
              | Inr txt \<Rightarrow> Inr (Some txt)))"

section \<open>Observations\<close>

text \<open>
  The cell at a position of the current table exists, is confirmed, and has the given
  value and history.
\<close>

definition confirmedWith ::
  "State \<Rightarrow> nat \<Rightarrow> nat \<Rightarrow> CellValue \<Rightarrow> CellHistoryEntry list \<Rightarrow> bool" where
  "confirmedWith s rowIndex colIndex v h =
     (case currentTable s of
        None \<Rightarrow> False
      | Some t \<Rightarrow>
         (case cellAt (rows t) rowIndex colIndex of
            None \<Rightarrow> False
          | Some cell \<Rightarrow> confirmed cell \<and> value cell = v \<and> history cell = h))"

section \<open>Example data\<close>

text \<open>The mock users of the authentication context (\<open>mockUsers\<close>).\<close>

definition adminUser :: User where
  "adminUser = \<lparr>uid = ''1'', uname = ''Admin User'', email = ''admin@medytox.com'',
     role = Admin, upermissions = [''edit_all'', ''view_all'', ''confirm_data'', ''manage_users'']\<rparr>"

definition dpUser :: User where
  "dpUser = \<lparr>uid = ''2'', uname = ''DP Team Member'', email = ''dp@medytox.com'',
     role = DpTeam, upermissions = [''edit_data'', ''view_all'', ''confirm_data'']\<rparr>"

definition qaUser :: User where
  "qaUser = \<lparr>uid = ''3'', uname = ''QA Team Member'', email = ''qa@medytox.com'',
     role = QaTeam, upermissions = [''view_all'', ''confirm_data'']\<rparr>"

definition viewerUser :: User where
  "viewerUser = \<lparr>uid = ''4'', uname = ''Viewer'', email = ''viewer@medytox.com'',
     role = Viewer, upermissions = [''view_all'']\<rparr>"

text \<open>The state of the provider when it is mounted: no table, nothing selected.\<close>

definition initialState :: "User option \<Rightarrow> State" where
  "initialState u = \<lparr>tables = [], currentTableId = None, user = u, auditLog = [], toasts = []\<rparr>"

text \<open>
  A table of one row and two columns, as in the example scenario: the cell at (0, 0) is
  empty, the cell at (0, 1) was set to 42 by user 2 and then confirmed by user 3.
\<close>

definition qcCell :: Cell where
  "qcCell = \<lparr>value = VNumber 42, confirmed = True, confirmedBy = Some ''3'',
     confirmedAt = Some 2, confirmedComments = None, permissions = None,
     history = [\<lparr>hvalue = VNull, timestamp = 1, userId = ''2''\<rparr>]\<rparr>"

definition qcTable :: TableData where
  "qcTable = \<lparr>tid = ''t1'', tname = ''QC Run 1'', headers = [''Batch'', ''Result''],
     rows = [[Elem emptyCell, Elem qcCell]],
     tconfirmed = False, tconfirmedBy = None, tconfirmedAt = None,
     tconfirmedComments = None, version = 1\<rparr>"

definition qcState :: "User option \<Rightarrow> State" where
  "qcState u = \<lparr>tables = [qcTable], currentTableId = Some ''t1'', user = u,
     auditLog = [], toasts = []\<rparr>"

section \<open>Auxiliary facts\<close>

lemma pushRows_eq:
  "pushRows rs r n = rs @ replicate (Suc r - length rs) (emptyRow n)"
proof (induction rs r n rule: pushRows.induct)
  case (1 updatedRows rowIndex n)
  show ?case
  proof (cases "length updatedRows \<le> rowIndex")
    case True
    then have "Suc rowIndex - length updatedRows = Suc (rowIndex - length updatedRows)"
      by simp
    with True 1 show ?thesis
      by (subst pushRows.simps) (simp add: replicate_app_Cons_same)
  next
    case False
    then show ?thesis by (subst pushRows.simps) simp
  qed
qed

lemma find_map_current:
  assumes "\<And>x. tid x = i \<Longrightarrow> tid (f x) = i"
  shows "find (\<lambda>t. tid t = i) (map (\<lambda>t. if Some (tid t) = Some i then f t else t) ts)
         = map_option f (find (\<lambda>t. tid t = i) ts)"
  using assms by (induction ts) auto

lemma currentTable_mapCurrent:
  assumes "currentTable s = Some t" and "\<And>x. tid x = tid t \<Longrightarrow> tid (f x) = tid t"
  shows "currentTable (mapCurrent f s) = Some (f t)"
proof -
  from assms(1) obtain i where i: "currentTableId s = Some i" and f: "find (\<lambda>t. tid t = i) (tables s) = Some t"
    by (auto simp: currentTable_def split: option.splits)
  from f have "tid t = i" by (auto simp: find_Some_iff)
  with assms(2) have "\<And>x. tid x = i \<Longrightarrow> tid (f x) = i" by simp
  from find_map_current[of i f "tables s", OF this] i f show ?thesis
    by (simp add: currentTable_def mapCurrent_def)
qed

lemma addLog_fields [simp]:
  "tables (addLog a r d s) = tables s"
  "currentTableId (addLog a r d s) = currentTableId s"
  "user (addLog a r d s) = user s"
  "toasts (addLog a r d s) = toasts s"
  "auditLog (addLog a r d s) = auditLog s @ [\<lparr>action = a, resource = r, details = d\<rparr>]"
  by (simp_all add: addLog_def)

lemma toast_fields [simp]:
  "tables (toast l m s) = tables s"
  "currentTableId (toast l m s) = currentTableId s"
  "user (toast l m s) = user s"
  "auditLog (toast l m s) = auditLog s"
  "toasts (toast l m s) = toasts s @ [(l, m)]"
  by (simp_all add: toast_def)

lemma mapCurrent_fields [simp]:
  "currentTableId (mapCurrent f s) = currentTableId s"
  "user (mapCurrent f s) = user s"
  "auditLog (mapCurrent f s) = auditLog s"
  "toasts (mapCurrent f s) = toasts s"
  by (simp_all add: mapCurrent_def)

lemma currentTable_addLog [simp]: "currentTable (addLog a r d s) = currentTable s"
  by (simp add: currentTable_def split: option.splits)

lemma currentTable_toast [simp]: "currentTable (toast l m s) = currentTable s"
  by (simp add: currentTable_def split: option.splits)

lemma length_setIndex: "length (setIndex row c x) = max (length row) (Suc c)"
  by (auto simp: setIndex_def)

lemma elemAt_setIndex_same [simp]: "elemAt (setIndex row c x) c = Some x"
  by (simp add: elemAt_def setIndex_def nth_append)

lemma cellAt_update_same:
  "r < length rs \<Longrightarrow> cellAt (rs[r := row]) r c = elemAt row c"
  by (simp add: cellAt_def)

lemma elemAt_emptyRow: "elemAt (emptyRow n) c = (if c < n then Some emptyCell else None)"
  by (simp add: elemAt_def emptyRow_def)

lemma pushRows_length: "r < length (pushRows rs r n)"
  by (simp add: pushRows_eq)

lemma pushRows_nth_new:
  "\<not> r < length rs \<Longrightarrow> pushRows rs r n ! r = emptyRow n"
  by (simp add: pushRows_eq nth_append)

text \<open>The cell that \<open>updateCell\<close> takes as the current one.\<close>

lemma currentCell_eq:
  "(case elemAt ((if \<not> r < length rs then pushRows rs r n else rs) ! r) c of
      Some x \<Rightarrow> x | None \<Rightarrow> emptyCell)
   = (case cellAt rs r c of Some x \<Rightarrow> x | None \<Rightarrow> emptyCell)"
  by (simp add: cellAt_def pushRows_nth_new elemAt_emptyRow)

subsection \<open>Which operations can throw\<close>

lemma other_operations_return:
  "updateCell s now rowIndex colIndex v \<noteq> Inl e"
  "confirmTable s now comments \<noteq> Inl e"
  "addRow s \<noteq> Inl e"
  "addColumn s header \<noteq> Inl e"
  "createTable s newId name hs n \<noteq> Inl e"
  "selectTable s i \<noteq> Inl e"
  "exportTableToPDF s \<noteq> Inl e"
  by (auto simp: updateCell_def confirmTable_def addRow_def addColumn_def createTable_def
      selectTable_def exportTableToPDF_def Let_def split: option.splits)

lemma confirmCell_throws_iff:
  "confirmCell s now rowIndex colIndex comments = Inl e \<longleftrightarrow>
     (\<exists>t u. currentTable s = Some t \<and> user s = Some u \<and>
        ''confirm_data'' \<in> set (upermissions u) \<and> length (rows t) \<le> rowIndex)"
  by (cases e) (auto simp: confirmCell_def Let_def split: option.splits)

lemma setCellPermissions_throws_iff:
  "setCellPermissions s rowIndex colIndex perms = Inl e \<longleftrightarrow>
     (\<exists>t u. currentTable s = Some t \<and> user s = Some u \<and>
        role u = Admin \<and> length (rows t) \<le> rowIndex)"
  by (cases e) (auto simp: setCellPermissions_def Let_def split: option.splits)

subsection \<open>The result of \<open>updateCell\<close>\<close>

lemma updateCell_True_pre:
  assumes "updateCell s now r c v = Inr (True, s')"
  shows "\<exists>t u. currentTable s = Some t \<and> user s = Some u"
  using assms by (auto simp: updateCell_def split: option.splits)

lemma updateCell_True:
  assumes "updateCell s now r c v = Inr (True, s')"
    and t: "currentTable s = Some t" and u: "user s = Some u"
    and rs: "rs = (if \<not> r < length (rows t)
                   then pushRows (rows t) r (length (headers t)) else rows t)"
    and old: "old = (case cellAt (rows t) r c of Some x \<Rightarrow> x | None \<Rightarrow> emptyCell)"
  shows "currentTable s' = Some (t\<lparr>rows := rs[r := setIndex (rs ! r) c
           (old\<lparr>value := v, history := history old @
              [\<lparr>hvalue = value old, timestamp = now, userId = uid u\<rparr>]\<rparr>)]\<rparr>)"
proof -
  define rs' where "rs' = rs[r := setIndex (rs ! r) c
      (old\<lparr>value := v, history := history old @
         [\<lparr>hvalue = value old, timestamp = now, userId = uid u\<rparr>]\<rparr>)]"
  have cur: "(case elemAt (rs ! r) c of Some x \<Rightarrow> x | None \<Rightarrow> emptyCell) = old"
    unfolding rs old by (rule currentCell_eq)
  from assms(1) t u
  have "currentTable s' = currentTable (mapCurrent (\<lambda>table. table\<lparr>rows := rs'\<rparr>) s)"
    unfolding updateCell_def rs'_def
    by (auto simp: Let_def cur[unfolded rs] rs split: if_splits)
  also have "\<dots> = Some (t\<lparr>rows := rs'\<rparr>)"
    using t by (rule currentTable_mapCurrent) simp
  finally show ?thesis by (simp add: rs'_def)
qed

lemma updateCell_False:
  "updateCell s now r c v = Inr (False, s') \<Longrightarrow> currentTable s' = currentTable s"
  by (auto simp: updateCell_def Let_def split: option.splits if_splits)

subsection \<open>Row lengths\<close>

lemma length_spread [simp]: "length (spread row) = length row"
  by (induction row rule: spread.induct) simp_all

lemma length_emptyRow [simp]: "length (emptyRow n) = n"
  by (simp add: emptyRow_def)

lemma pushRows_consistent:
  "\<forall>row \<in> set rs. length row = n \<Longrightarrow> \<forall>row \<in> set (pushRows rs r n). length row = n"
  by (auto simp: pushRows_eq)

lemma update_consistent:
  assumes "\<forall>row \<in> set rs. length row = n" and "length x = n"
  shows "\<forall>row \<in> set (rs[r := x]). length row = n"
  using assms by (auto dest!: set_update_subset_insert [THEN subsetD])

lemma updateCell_consistent:
  assumes "currentTable s = Some t"
    and "\<forall>row \<in> set (rows t). length row = length (headers t)"
    and "colIndex < length (headers t)"
  shows "\<exists>ok s' t'. updateCell s now rowIndex colIndex v = Inr (ok, s') \<and>
           currentTable s' = Some t' \<and> headers t' = headers t \<and>
           (\<forall>row \<in> set (rows t'). length row = length (headers t'))"
proof -
  have "\<exists>ok s'. updateCell s now rowIndex colIndex v = Inr (ok, s')"
  proof (cases "updateCell s now rowIndex colIndex v")
    case (Inl e)
    then show ?thesis by (simp add: other_operations_return(1))
  next
    case (Inr p)
    then show ?thesis by (cases p) simp
  qed
  then obtain ok s' where res: "updateCell s now rowIndex colIndex v = Inr (ok, s')"
    by blast
  show ?thesis
  proof (cases ok)
    case False
    with res have "updateCell s now rowIndex colIndex v = Inr (False, s')" by simp
    then have "currentTable s' = currentTable s" by (rule updateCell_False)
    with assms(1) have "currentTable s' = Some t" by simp
    with res assms(2) show ?thesis
      by (intro exI [of _ ok] exI [of _ s'] exI [of _ t]) simp
  next
    case True
    with res have ok: "updateCell s now rowIndex colIndex v = Inr (True, s')" by simp
    then obtain u where u: "user s = Some u"
      using updateCell_True_pre by blast
    define rs where "rs = (if \<not> rowIndex < length (rows t)
         then pushRows (rows t) rowIndex (length (headers t)) else rows t)"
    define old where "old = (case cellAt (rows t) rowIndex colIndex of
         Some x \<Rightarrow> x | None \<Rightarrow> emptyCell)"
    define row' where "row' = setIndex (rs ! rowIndex) colIndex
         (old\<lparr>value := v, history := history old @
            [\<lparr>hvalue = value old, timestamp = now, userId = uid u\<rparr>]\<rparr>)"
    have rs: "\<forall>row \<in> set rs. length row = length (headers t)"
      unfolding rs_def using assms(2) pushRows_consistent [OF assms(2), of rowIndex] by simp
    have len: "rowIndex < length rs" by (simp add: rs_def pushRows_length)
    with rs have "length (rs ! rowIndex) = length (headers t)" by simp
    with assms(3) have "length row' = length (headers t)"
      by (simp add: row'_def length_setIndex)
    with rs have cons: "\<forall>row \<in> set (rs[rowIndex := row']). length row = length (headers t)"
      by (rule update_consistent)
    have t': "currentTable s' = Some (t\<lparr>rows := rs[rowIndex := row']\<rparr>)"
      unfolding row'_def by (rule updateCell_True [OF ok assms(1) u rs_def old_def])
    have h: "headers (t\<lparr>rows := rs[rowIndex := row']\<rparr>) = headers t" by simp
    have "\<forall>row \<in> set (rows (t\<lparr>rows := rs[rowIndex := row']\<rparr>)).
        length row = length (headers (t\<lparr>rows := rs[rowIndex := row']\<rparr>))"
      using cons by simp
    with ok t' h show ?thesis
      by (intro exI [of _ True] exI [of _ s'] exI [of _ "t\<lparr>rows := rs[rowIndex := row']\<rparr>"]) simp
  qed
qed

lemma updateCell_beyond_headers:
  assumes "currentTable s = Some t"
    and "\<forall>row \<in> set (rows t). length row = length (headers t)"
    and "length (headers t) \<le> colIndex"
    and "updateCell s now rowIndex colIndex v = Inr (True, s')"
  shows "\<exists>t'. currentTable s' = Some t' \<and> headers t' = headers t \<and>
           rowIndex < length (rows t') \<and> length (rows t' ! rowIndex) = Suc colIndex"
proof -
  define rs where "rs = (if \<not> rowIndex < length (rows t)
         then pushRows (rows t) rowIndex (length (headers t)) else rows t)"
  have rs: "\<forall>row \<in> set rs. length row = length (headers t)"
    unfolding rs_def using assms(2) pushRows_consistent [OF assms(2), of rowIndex] by simp
  have len: "rowIndex < length rs" by (simp add: rs_def pushRows_length)
  with rs have "length (rs ! rowIndex) = length (headers t)" by simp
  with assms(3) have l: "\<And>x. length (setIndex (rs ! rowIndex) colIndex x) = Suc colIndex"
    by (simp add: length_setIndex)
  from assms(4) obtain u where u: "user s = Some u"
    using updateCell_True_pre by blast
  from updateCell_True [OF assms(4) assms(1) u rs_def refl]
  obtain x where "currentTable s' = Some (t\<lparr>rows := rs[rowIndex := setIndex (rs ! rowIndex) colIndex x]\<rparr>)"
    by blast
  with len l show ?thesis by simp
qed

lemma addRow_consistent:
  assumes "currentTable s = Some t"
    and "\<forall>row \<in> set (rows t). length row = length (headers t)"
  shows "\<exists>s' t'. addRow s = Inr s' \<and> currentTable s' = Some t' \<and>
           (\<forall>row \<in> set (rows t'). length row = length (headers t')) \<and>
           (user s \<noteq> None \<longrightarrow> headers t' = headers t \<and>
              rows t' = rows t @ [emptyRow (length (headers t))])"
proof (cases "user s")
  case None
  with assms show ?thesis by (simp add: addRow_def)
next
  case (Some u)
  have "currentTable (mapCurrent (\<lambda>table. table\<lparr>rows := rows t @ [emptyRow (length (headers t))]\<rparr>) s)
      = Some (t\<lparr>rows := rows t @ [emptyRow (length (headers t))]\<rparr>)"
    using assms(1) by (rule currentTable_mapCurrent) simp
  with Some assms show ?thesis by (simp add: addRow_def Let_def)
qed

lemma addColumn_consistent:
  assumes "currentTable s = Some t"
    and "\<forall>row \<in> set (rows t). length row = length (headers t)"
  shows "\<exists>s' t'. addColumn s header = Inr s' \<and> currentTable s' = Some t' \<and>
           (\<forall>row \<in> set (rows t'). length row = length (headers t')) \<and>
           (user s \<noteq> None \<longrightarrow> headers t' = headers t @ [header] \<and>
              rows t' = map (\<lambda>row. spread row @ [Elem emptyCell]) (rows t))"
proof (cases "user s")
  case None
  with assms show ?thesis by (simp add: addColumn_def)
next
  case (Some u)
  have "currentTable (mapCurrent (\<lambda>table. table\<lparr>headers := headers t @ [header],
            rows := map (\<lambda>row. spread row @ [Elem emptyCell]) (rows t)\<rparr>) s)
      = Some (t\<lparr>headers := headers t @ [header],
            rows := map (\<lambda>row. spread row @ [Elem emptyCell]) (rows t)\<rparr>)"
    using assms(1) by (rule currentTable_mapCurrent) simp
  with Some assms show ?thesis by (simp add: addColumn_def Let_def)
qed

lemma createTable_consistent:
  assumes "user s \<noteq> None"
  shows "\<exists>s' nt. createTable s newId name hs n = Inr s' \<and> tables s' = tables s @ [nt] \<and>
           headers nt = hs \<and>
           length (rows nt) = (case n of None \<Rightarrow> 10 | Some k \<Rightarrow> k) \<and>
           (\<forall>row \<in> set (rows nt). length row = length (headers nt))"
  using assms by (auto simp: createTable_def Let_def withIndex_def)

subsection \<open>Versions\<close>

lemma versions_mapCurrent:
  "(\<And>x. version (f x) = version x) \<Longrightarrow>
   map version (tables (mapCurrent f s)) = map version (tables s)"
  by (simp add: mapCurrent_def comp_def)

lemma versions_updateCell:
  "updateCell s now rowIndex colIndex v = Inr (ok, s') \<Longrightarrow>
   map version (tables s') = map version (tables s)"
  by (auto simp: updateCell_def Let_def versions_mapCurrent split: option.splits if_splits)

lemma versions_confirmCell:
  "confirmCell s now rowIndex colIndex comments = Inr s' \<Longrightarrow>
   map version (tables s') = map version (tables s)"
  by (auto simp: confirmCell_def Let_def versions_mapCurrent split: option.splits if_splits)

lemma versions_setCellPermissions:
  "setCellPermissions s rowIndex colIndex perms = Inr s' \<Longrightarrow>
   map version (tables s') = map version (tables s)"
  by (auto simp: setCellPermissions_def Let_def versions_mapCurrent split: option.splits if_splits)

lemma versions_addRow:
  "addRow s = Inr s' \<Longrightarrow> map version (tables s') = map version (tables s)"
  by (auto simp: addRow_def Let_def versions_mapCurrent split: option.splits)

lemma versions_addColumn:
  "addColumn s header = Inr s' \<Longrightarrow> map version (tables s') = map version (tables s)"
  by (auto simp: addColumn_def Let_def versions_mapCurrent split: option.splits)

lemma versions_selectTable:
  "selectTable s i = Inr s' \<Longrightarrow> map version (tables s') = map version (tables s)"
  by (auto simp: selectTable_def split: option.splits)

lemma versions_createTable:
  "createTable s newId name hs n = Inr s' \<Longrightarrow>
   map version (tables s') = map version (tables s) @ (if user s = None then [] else [1])"
  by (auto simp: createTable_def Let_def split: option.splits)

lemma confirmTable_version:
  assumes "currentTable s = Some t" and "user s = Some u"
    and "''confirm_data'' \<in> set (upermissions u)"
  shows "\<exists>s' t'. confirmTable s now comments = Inr s' \<and> currentTable s' = Some t' \<and>
           version t' = version t + 1 \<and>
           map version (tables s') =
             map (\<lambda>x. if tid x = tid t then version t + 1 else version x) (tables s)"
proof -
  define t' where "t' = t\<lparr>tconfirmed := True, tconfirmedBy := Some (uid u),
                    tconfirmedAt := Some now, tconfirmedComments := comments,
                    version := version t + 1\<rparr>"
  define s' where "s' = toast Success
       [Lit ''Table confirmed successfully (version '', Num (version t'), Lit '')'']
       (addLog ''confirm'' ''table''
          [Lit ''Confirmed table \"'', Str (tname t), Lit ''\" (version '',
           Num (version t'), Lit '')'']
          (mapCurrent (\<lambda>table. t') s))"
  have res: "confirmTable s now comments = Inr s'"
    using assms by (simp add: confirmTable_def s'_def t'_def Let_def)
  have "currentTable s' = currentTable (mapCurrent (\<lambda>table. t') s)"
    by (simp add: s'_def)
  also have "\<dots> = Some t'"
    using assms(1) by (rule currentTable_mapCurrent) (simp add: t'_def)
  finally have cur: "currentTable s' = Some t'" .
  from assms(1) have "currentTableId s = Some (tid t)"
    by (auto simp: currentTable_def find_Some_iff split: option.splits)
  then have "map version (tables s') =
      map (\<lambda>x. if tid x = tid t then version t + 1 else version x) (tables s)"
    by (simp add: s'_def mapCurrent_def t'_def comp_def if_distrib cong: if_cong)
  with res cur show ?thesis by (simp add: t'_def)
qed

subsection \<open>Reading and writing a position\<close>

lemma elemAt_Nil [simp]: "elemAt [] c = None"
  by (simp add: elemAt_def)

lemma elemAt_Cons_0 [simp]:
  "elemAt (x # xs) 0 = (case x of Elem y \<Rightarrow> Some y | _ \<Rightarrow> None)"
  by (simp add: elemAt_def)

lemma elemAt_Cons_Suc [simp]: "elemAt (x # xs) (Suc c) = elemAt xs c"
  by (simp add: elemAt_def)

lemma elemAt_spread [simp]: "elemAt (spread row) c = elemAt row c"
proof (induction row arbitrary: c)
  case Nil
  then show ?case by simp
next
  case (Cons x xs)
  then show ?case by (cases x; cases c) simp_all
qed

lemma elemAt_append_Some:
  "elemAt row c = Some x \<Longrightarrow> elemAt (row @ ys) c = Some x"
  by (auto simp: elemAt_def nth_append split: if_splits)

lemma elemAt_setIndex_other:
  "c \<noteq> c' \<Longrightarrow> elemAt (setIndex row c' x) c = elemAt row c"
  by (auto simp: elemAt_def setIndex_def nth_append nth_Cons' split: slot.splits)

lemma elemAt_Some_length: "elemAt row c = Some x \<Longrightarrow> c < length row"
  by (auto simp: elemAt_def split: if_splits)

lemma cellAt_Some_iff:
  "cellAt rs r c = Some x \<longleftrightarrow> r < length rs \<and> elemAt (rs ! r) c = Some x"
  by (simp add: cellAt_def)

lemma cellAt_pushRows:
  "cellAt rs r c = Some x \<Longrightarrow> cellAt (pushRows rs r' n) r c = Some x"
  by (auto simp: cellAt_def pushRows_eq nth_append split: if_splits)

lemma cellAt_update_other:
  "(r, c) \<noteq> (r', c') \<Longrightarrow> r' < length rs \<Longrightarrow>
   cellAt (rs[r' := setIndex (rs ! r') c' x]) r c = cellAt rs r c"
  by (auto simp: cellAt_def nth_list_update elemAt_setIndex_other)

subsection \<open>A confirmed cell keeps its value and history\<close>

lemma confirmedWith_iff:
  "confirmedWith s r c v h \<longleftrightarrow>
     (\<exists>t cell. currentTable s = Some t \<and> cellAt (rows t) r c = Some cell \<and>
        confirmed cell \<and> value cell = v \<and> history cell = h)"
  by (auto simp: confirmedWith_def split: option.splits)

lemma confirmedWith_updateCell:
  assumes "confirmedWith s r c x h"
    and "updateCell s now rowIndex colIndex v = Inr (ok, s')"
  shows "confirmedWith s' r c x h"
proof (cases ok)
  case False
  with assms(2) have "currentTable s' = currentTable s"
    by (simp add: updateCell_False)
  with assms(1) show ?thesis by (simp add: confirmedWith_def)
next
  case True
  with assms(2) have ok: "updateCell s now rowIndex colIndex v = Inr (True, s')" by simp
  from assms(1) obtain t cell where t: "currentTable s = Some t"
    and cell: "cellAt (rows t) r c = Some cell" "confirmed cell" "value cell = x" "history cell = h"
    by (auto simp: confirmedWith_iff)
  from ok obtain u where u: "user s = Some u"
    using updateCell_True_pre by blast
  have ne: "(r, c) \<noteq> (rowIndex, colIndex)"
  proof
    assume "(r, c) = (rowIndex, colIndex)"
    with t cell(1,2) u have "\<exists>s''. updateCell s now rowIndex colIndex v = Inr (False, s'')"
      by (auto simp: updateCell_def)
    with ok show False by simp
  qed
  define rs where "rs = (if \<not> rowIndex < length (rows t)
         then pushRows (rows t) rowIndex (length (headers t)) else rows t)"
  define old where "old = (case cellAt (rows t) rowIndex colIndex of
         Some y \<Rightarrow> y | None \<Rightarrow> emptyCell)"
  have len: "rowIndex < length rs" by (simp add: rs_def pushRows_length)
  have "cellAt rs r c = Some cell"
    using cell(1) by (simp add: rs_def cellAt_pushRows)
  with ne len have "\<And>y. cellAt (rs[rowIndex := setIndex (rs ! rowIndex) colIndex y]) r c = Some cell"
    by (simp add: cellAt_update_other)
  moreover note updateCell_True [OF ok t u rs_def old_def]
  ultimately show ?thesis using cell(2-4)
    by (simp add: confirmedWith_def)
qed

lemma confirmedWith_cell_write:
  assumes t: "currentTable s = Some t"
    and cw: "confirmedWith s r c x h"
    and el: "elemAt (rows t ! rowIndex) colIndex = Some cur" and len: "rowIndex < length (rows t)"
    and keep: "confirmed cur \<longrightarrow> confirmed new" "value new = value cur" "history new = history cur"
  shows "confirmedWith
           (mapCurrent (\<lambda>table. table\<lparr>rows :=
              (rows t)[rowIndex := setIndex (rows t ! rowIndex) colIndex new]\<rparr>) s) r c x h"
proof -
  have cur: "currentTable (mapCurrent (\<lambda>table. table\<lparr>rows :=
              (rows t)[rowIndex := setIndex (rows t ! rowIndex) colIndex new]\<rparr>) s)
      = Some (t\<lparr>rows := (rows t)[rowIndex := setIndex (rows t ! rowIndex) colIndex new]\<rparr>)"
    using t by (rule currentTable_mapCurrent) simp
  from cw t obtain cell where cell: "cellAt (rows t) r c = Some cell" "confirmed cell"
      "value cell = x" "history cell = h"
    by (auto simp: confirmedWith_iff)
  show ?thesis
  proof (cases "(r, c) = (rowIndex, colIndex)")
    case True
    with cell(1) el len have "cell = cur" by (simp add: cellAt_def)
    with True cell keep len cur show ?thesis
      by (simp add: confirmedWith_def cellAt_update_same)
  next
    case False
    with len have "cellAt ((rows t)[rowIndex := setIndex (rows t ! rowIndex) colIndex new]) r c
        = cellAt (rows t) r c"
      by (simp add: cellAt_update_other)
    with cell cur show ?thesis by (simp add: confirmedWith_def)
  qed
qed

lemma confirmedWith_effects [simp]:
  "confirmedWith (toast l m s) r c x h = confirmedWith s r c x h"
  "confirmedWith (addLog a b d s) r c x h = confirmedWith s r c x h"
  by (simp_all add: confirmedWith_def)

lemma confirmedWith_confirmCell:
  assumes "confirmedWith s r c x h"
    and "confirmCell s now rowIndex colIndex comments = Inr s'"
  shows "confirmedWith s' r c x h"
proof -
  from assms(1) obtain t where t: "currentTable s = Some t"
    by (auto simp: confirmedWith_iff)
  show ?thesis
  proof (cases "user s")
    case None
    with assms t show ?thesis by (simp add: confirmCell_def)
  next
    case (Some u)
    show ?thesis
    proof (cases "''confirm_data'' \<in> set (upermissions u)")
      case False
      with assms t Some show ?thesis by (auto simp: confirmCell_def)
    next
      case True
      with assms(2) t Some have len: "rowIndex < length (rows t)"
        by (auto simp: confirmCell_def split: if_splits)
      show ?thesis
      proof (cases "elemAt (rows t ! rowIndex) colIndex")
        case None
        with assms t Some True len show ?thesis by (simp add: confirmCell_def)
      next
        case (Some cur)
        have "confirmedWith (mapCurrent (\<lambda>table. table\<lparr>rows :=
              (rows t)[rowIndex := setIndex (rows t ! rowIndex) colIndex
                (cur\<lparr>confirmed := True, confirmedBy := Some (uid u),
                     confirmedAt := Some now, confirmedComments := comments\<rparr>)]\<rparr>) s) r c x h"
          using t assms(1) Some len by (rule confirmedWith_cell_write) simp_all
        with assms(2) t \<open>user s = Some u\<close> True len Some show ?thesis
          by (auto simp: confirmCell_def)
      qed
    qed
  qed
qed

lemma confirmedWith_setCellPermissions:
  assumes "confirmedWith s r c x h"
    and "setCellPermissions s rowIndex colIndex perms = Inr s'"
  shows "confirmedWith s' r c x h"
proof -
  from assms(1) obtain t where t: "currentTable s = Some t"
    by (auto simp: confirmedWith_iff)
  show ?thesis
  proof (cases "user s")
    case None
    with assms t show ?thesis by (simp add: setCellPermissions_def)
  next
    case (Some u)
    show ?thesis
    proof (cases "role u = Admin")
      case False
      with assms t Some show ?thesis by (auto simp: setCellPermissions_def)
    next
      case True
      with assms(2) t Some have len: "rowIndex < length (rows t)"
        by (auto simp: setCellPermissions_def split: if_splits)
      show ?thesis
      proof (cases "elemAt (rows t ! rowIndex) colIndex")
        case None
        with assms t Some True len show ?thesis by (simp add: setCellPermissions_def)
      next
        case (Some cur)
        have "confirmedWith (mapCurrent (\<lambda>table. table\<lparr>rows :=
              (rows t)[rowIndex := setIndex (rows t ! rowIndex) colIndex
                (cur\<lparr>permissions := Some perms\<rparr>)]\<rparr>) s) r c x h"
          using t assms(1) Some len by (rule confirmedWith_cell_write) simp_all
        with assms(2) t \<open>user s = Some u\<close> True len Some show ?thesis
          by (auto simp: setCellPermissions_def)
      qed
    qed
  qed
qed

lemma confirmedWith_mapCurrent_rows:
  assumes "currentTable s = Some t" and "confirmedWith s r c x h"
    and "\<And>cell. cellAt (rows t) r c = Some cell \<Longrightarrow> cellAt (rows (f t)) r c = Some cell"
    and "\<And>y. tid y = tid t \<Longrightarrow> tid (f y) = tid t"
  shows "confirmedWith (mapCurrent f s) r c x h"
proof -
  have "currentTable (mapCurrent f s) = Some (f t)"
    using assms(1,4) by (rule currentTable_mapCurrent)
  with assms(1-3) show ?thesis by (auto simp: confirmedWith_iff)
qed

lemma confirmedWith_addRow:
  assumes "confirmedWith s r c x h" and "addRow s = Inr s'"
  shows "confirmedWith s' r c x h"
proof -
  from assms(1) obtain t where t: "currentTable s = Some t"
    by (auto simp: confirmedWith_iff)
  show ?thesis
  proof (cases "user s")
    case None
    with assms t show ?thesis by (simp add: addRow_def)
  next
    case (Some u)
    have "confirmedWith (mapCurrent (\<lambda>table. table\<lparr>rows :=
             rows t @ [emptyRow (length (headers t))]\<rparr>) s) r c x h"
      using t assms(1)
      by (rule confirmedWith_mapCurrent_rows) (auto simp: cellAt_def nth_append split: if_splits)
    with assms(2) t Some show ?thesis by (auto simp: addRow_def Let_def)
  qed
qed

lemma confirmedWith_addColumn:
  assumes "confirmedWith s r c x h" and "addColumn s header = Inr s'"
  shows "confirmedWith s' r c x h"
proof -
  from assms(1) obtain t where t: "currentTable s = Some t"
    by (auto simp: confirmedWith_iff)
  show ?thesis
  proof (cases "user s")
    case None
    with assms t show ?thesis by (simp add: addColumn_def)
  next
    case (Some u)
    have "confirmedWith (mapCurrent (\<lambda>table. table\<lparr>headers := headers t @ [header],
             rows := map (\<lambda>row. spread row @ [Elem emptyCell]) (rows t)\<rparr>) s) r c x h"
      using t assms(1)
      by (rule confirmedWith_mapCurrent_rows)
        (auto simp: cellAt_def elemAt_append_Some split: if_splits)
    with assms(2) t Some show ?thesis by (auto simp: addColumn_def Let_def)
  qed
qed

lemma confirmedWith_confirmTable:
  assumes "confirmedWith s r c x h" and "confirmTable s now comments = Inr s'"
  shows "confirmedWith s' r c x h"
proof -
  from assms(1) obtain t where t: "currentTable s = Some t"
    by (auto simp: confirmedWith_iff)
  show ?thesis
  proof (cases "user s")
    case None
    with assms t show ?thesis by (simp add: confirmTable_def)
  next
    case (Some u)
    have "confirmedWith (mapCurrent (\<lambda>table. t\<lparr>tconfirmed := True, tconfirmedBy := Some (uid u),
                    tconfirmedAt := Some now, tconfirmedComments := comments,
                    version := version t + 1\<rparr>) s) r c x h"
      using t assms(1)
      by (rule confirmedWith_mapCurrent_rows) auto
    with assms t Some show ?thesis by (auto simp: confirmTable_def Let_def split: if_splits)
  qed
qed

subsection \<open>Operations that write one existing cell keep the shape\<close>

lemma shape_cell_write:
  assumes "currentTable s = Some t"
    and "elemAt (rows t ! rowIndex) colIndex = Some cur"
  shows "\<exists>t'. currentTable (mapCurrent (\<lambda>table. table\<lparr>rows :=
              (rows t)[rowIndex := setIndex (rows t ! rowIndex) colIndex new]\<rparr>) s) = Some t' \<and>
           headers t' = headers t \<and> map length (rows t') = map length (rows t)"
proof -
  have cur: "currentTable (mapCurrent (\<lambda>table. table\<lparr>rows :=
              (rows t)[rowIndex := setIndex (rows t ! rowIndex) colIndex new]\<rparr>) s)
      = Some (t\<lparr>rows := (rows t)[rowIndex := setIndex (rows t ! rowIndex) colIndex new]\<rparr>)"
    using assms(1) by (rule currentTable_mapCurrent) simp
  from assms(2) have "colIndex < length (rows t ! rowIndex)"
    by (rule elemAt_Some_length)
  then have "length (setIndex (rows t ! rowIndex) colIndex new) = length (rows t ! rowIndex)"
    by (simp add: length_setIndex)
  then have "map length ((rows t)[rowIndex := setIndex (rows t ! rowIndex) colIndex new])
      = map length (rows t)"
    by (cases "rowIndex < length (rows t)") (simp_all add: map_update list_update_same_conv list_update_beyond)
  with cur show ?thesis by simp
qed

lemma shape_confirmCell:
  assumes "currentTable s = Some t"
    and "confirmCell s now rowIndex colIndex comments = Inr s'"
  shows "\<exists>t'. currentTable s' = Some t' \<and> headers t' = headers t \<and>
           map length (rows t') = map length (rows t)"
proof (cases "user s")
  case None
  with assms show ?thesis by (simp add: confirmCell_def)
next
  case (Some u)
  show ?thesis
  proof (cases "''confirm_data'' \<in> set (upermissions u) \<and> rowIndex < length (rows t)")
    case False
    with assms Some show ?thesis by (auto simp: confirmCell_def split: if_splits)
  next
    case True
    show ?thesis
    proof (cases "elemAt (rows t ! rowIndex) colIndex")
      case None
      with assms \<open>user s = Some u\<close> True show ?thesis by (simp add: confirmCell_def)
    next
      case (Some cur)
      note shape_cell_write [OF assms(1) Some, where new =
          "cur\<lparr>confirmed := True, confirmedBy := Some (uid u),
               confirmedAt := Some now, confirmedComments := comments\<rparr>"]
      with assms \<open>user s = Some u\<close> True Some show ?thesis
        by (auto simp: confirmCell_def)
    qed
  qed
qed

lemma shape_setCellPermissions:
  assumes "currentTable s = Some t"
    and "setCellPermissions s rowIndex colIndex perms = Inr s'"
  shows "\<exists>t'. currentTable s' = Some t' \<and> headers t' = headers t \<and>
           map length (rows t') = map length (rows t)"
proof (cases "user s")
  case None
  with assms show ?thesis by (simp add: setCellPermissions_def)
next
  case (Some u)
  show ?thesis
  proof (cases "role u = Admin \<and> rowIndex < length (rows t)")
    case False
    with assms Some show ?thesis by (auto simp: setCellPermissions_def split: if_splits)
  next
    case True
    show ?thesis
    proof (cases "elemAt (rows t ! rowIndex) colIndex")
      case None
      with assms \<open>user s = Some u\<close> True show ?thesis by (simp add: setCellPermissions_def)
    next
      case (Some cur)
      note shape_cell_write [OF assms(1) Some, where new = "cur\<lparr>permissions := Some perms\<rparr>"]
      with assms \<open>user s = Some u\<close> True Some show ?thesis
        by (auto simp: setCellPermissions_def)
    qed
  qed
qed

lemma shape_confirmTable:
  assumes "currentTable s = Some t"
    and "confirmTable s now comments = Inr s'"
  shows "\<exists>t'. currentTable s' = Some t' \<and> headers t' = headers t \<and>
           map length (rows t') = map length (rows t)"
proof (cases "user s")
  case None
  with assms show ?thesis by (simp add: confirmTable_def)
next
  case (Some u)
  have "currentTable (mapCurrent (\<lambda>table. t\<lparr>tconfirmed := True, tconfirmedBy := Some (uid u),
                    tconfirmedAt := Some now, tconfirmedComments := comments,
                    version := version t + 1\<rparr>) s)
      = Some (t\<lparr>tconfirmed := True, tconfirmedBy := Some (uid u),
                    tconfirmedAt := Some now, tconfirmedComments := comments,
                    version := version t + 1\<rparr>)"
    using assms(1) by (rule currentTable_mapCurrent) simp
  with assms Some show ?thesis by (auto simp: confirmTable_def Let_def split: if_splits)
qed

subsection \<open>The exported text\<close>

lemma csvRows_content:
  "csvRows numToString csvContent rs = Inr txt \<Longrightarrow>
   txt = csvContent @
         concat (map (\<lambda>row. join (projr (rowData numToString row)) @ [CHR 0x0A]) rs)"
proof (induction rs arbitrary: csvContent)
  case Nil
  then show ?case by simp
next
  case (Cons row rs)
  from Cons.prems obtain fs where fs: "rowData numToString row = Inr fs"
    and rest: "csvRows numToString (csvContent @ join fs @ [CHR 0x0A]) rs = Inr txt"
    by (auto split: sum.splits)
  from Cons.IH [OF rest] fs show ?case by simp
qed

lemma rowData_cells:
  "rowData numToString (map Elem cells) = Inr (map (csvField numToString) cells)"
  by (induction cells) simp_all

lemma csvField_quoted:
  "value cell = VString x \<Longrightarrow> CHR '','' \<in> set x \<or> CHR 0x22 \<in> set x \<Longrightarrow>
   csvField numToString cell = [CHR 0x22] @ doubleQuotes x @ [CHR 0x22]"
  by (simp add: csvField_def)

lemma handleExportCSV_rows:
  "handleExportCSV numToString includeHeaders (Some t) = Inr (Some txt) \<Longrightarrow>
   txt = (if includeHeaders then join (headers t) @ [CHR 0x0A] else []) @
         concat (map (\<lambda>row. join (projr (rowData numToString row)) @ [CHR 0x0A]) (rows t))"
  by (auto simp: handleExportCSV_def Let_def dest: csvRows_content split: sum.splits if_splits)

subsection \<open>The example table\<close>

lemma qc_current [simp]: "currentTable (qcState u) = Some qcTable"
  by (simp add: currentTable_def qcState_def qcTable_def)

lemma qc_fields [simp]:
  "user (qcState u) = u"
  "tables (qcState u) = [qcTable]"
  "currentTableId (qcState u) = Some ''t1''"
  "auditLog (qcState u) = []"
  "toasts (qcState u) = []"
  by (simp_all add: qcState_def)

lemma qc_cells [simp]:
  "cellAt (rows qcTable) 0 0 = Some emptyCell"
  "cellAt (rows qcTable) 0 (Suc 0) = Some qcCell"
  by (simp_all add: cellAt_def elemAt_def qcTable_def)

lemma qc_consistent: "\<forall>row \<in> set (rows qcTable). length row = length (headers qcTable)"
  by (simp add: qcTable_def)

lemma qc_canEdit_new: "canEditCell (qcState (Some u)) 0 4"
  by (simp add: canEditCell_def cellAt_def elemAt_def qcTable_def)

lemma qc_versions: "map version (tables (qcState u)) = [1]"
  by (simp add: qcTable_def)

section \<open>Permission engine: admin bypass and default policy\<close>

text \<open>
  C6. With a table selected and a user signed in whose role is admin, both
  \<open>canViewCell\<close> and \<open>canEditCell\<close> answer true at every position, whatever the cell
  there and whatever its permissions record.
\<close>

theorem admin_bypass:
  assumes "currentTable s = Some t" and "user s = Some u" and "role u = Admin"
  shows "canViewCell s rowIndex colIndex \<and> canEditCell s rowIndex colIndex"
  using assms by (simp add: canViewCell_def canEditCell_def)

theorem admin_bypass_witness:
  "canViewCell (qcState (Some adminUser)) 0 1 \<and> canEditCell (qcState (Some adminUser)) 0 1"
  using admin_bypass [of "qcState (Some adminUser)" qcTable adminUser 0 1]
  by (simp add: adminUser_def)

text \<open>
  C7. For an existing cell without a permissions record, with a table selected and a user
  signed in: a user whose role is neither admin nor \<open>dp_team\<close> may view the cell and may
  not edit it; a \<open>dp_team\<close> user may both view and edit it.
\<close>

theorem default_permission_asymmetry:
  assumes "currentTable s = Some t" and "user s = Some u"
    and "cellAt (rows t) rowIndex colIndex = Some cell" and "permissions cell = None"
  shows "(role u \<noteq> Admin \<and> role u \<noteq> DpTeam \<longrightarrow>
            canViewCell s rowIndex colIndex \<and> \<not> canEditCell s rowIndex colIndex) \<and>
         (role u = DpTeam \<longrightarrow>
            canViewCell s rowIndex colIndex \<and> canEditCell s rowIndex colIndex)"
  using assms by (simp add: canViewCell_def canEditCell_def)

theorem default_permission_asymmetry_witness:
  "canViewCell (qcState (Some viewerUser)) 0 0 \<and> \<not> canEditCell (qcState (Some viewerUser)) 0 0 \<and>
   canViewCell (qcState (Some dpUser)) 0 0 \<and> canEditCell (qcState (Some dpUser)) 0 0"
  using default_permission_asymmetry [of "qcState (Some viewerUser)" qcTable viewerUser 0 0 emptyCell]
    default_permission_asymmetry [of "qcState (Some dpUser)" qcTable dpUser 0 0 emptyCell]
  by (simp add: viewerUser_def dpUser_def emptyCell_def)

section \<open>Cell mutation\<close>

text \<open>
  C3. \<open>updateCell\<close> checks in this order, and the first check that fails decides:
  (a) without a selected table or without a signed-in user it returns false and the state
  is the same, with no notification; (b) otherwise, when \<open>canEditCell\<close> refuses, it
  returns false and only the notification of the missing permission is added; (c)
  otherwise, when the cell exists and is confirmed, it returns false and only the
  notification of the confirmed cell is added.
\<close>

theorem updateCell_check_order:
  "(currentTable s = None \<or> user s = None \<longrightarrow>
      updateCell s now rowIndex colIndex v = Inr (False, s)) \<and>
   (currentTable s \<noteq> None \<and> user s \<noteq> None \<and> \<not> canEditCell s rowIndex colIndex \<longrightarrow>
      updateCell s now rowIndex colIndex v =
        Inr (False, s\<lparr>toasts := toasts s @
               [(Error, [Lit ''You don't have permission to edit this cell''])]\<rparr>)) \<and>
   (\<forall>t cell. currentTable s = Some t \<and> user s \<noteq> None \<and> canEditCell s rowIndex colIndex \<and>
        cellAt (rows t) rowIndex colIndex = Some cell \<and> confirmed cell \<longrightarrow>
      updateCell s now rowIndex colIndex v =
        Inr (False, s\<lparr>toasts := toasts s @
               [(Error, [Lit ''This cell is confirmed and cannot be edited''])]\<rparr>))"
  by (auto simp: updateCell_def toast_def split: option.splits)

theorem updateCell_check_order_witness:
  "updateCell (initialState (Some dpUser)) 3 0 0 (VNumber 7) = Inr (False, initialState (Some dpUser)) \<and>
   updateCell (qcState (Some viewerUser)) 3 0 1 (VNumber 7) =
     Inr (False, (qcState (Some viewerUser))\<lparr>toasts :=
        [(Error, [Lit ''You don't have permission to edit this cell''])]\<rparr>) \<and>
   updateCell (qcState (Some dpUser)) 3 0 1 (VNumber 7) =
     Inr (False, (qcState (Some dpUser))\<lparr>toasts :=
        [(Error, [Lit ''This cell is confirmed and cannot be edited''])]\<rparr>)"
proof -
  have a: "currentTable (initialState (Some dpUser)) = None"
    by (simp add: currentTable_def initialState_def)
  have b: "\<not> canEditCell (qcState (Some viewerUser)) 0 1"
    by (simp add: canEditCell_def viewerUser_def qcCell_def)
  have c: "canEditCell (qcState (Some dpUser)) 0 1"
    by (simp add: canEditCell_def dpUser_def qcCell_def)
  have d: "confirmed qcCell" by (simp add: qcCell_def)
  show ?thesis
    using updateCell_check_order [of "initialState (Some dpUser)" 3 0 0 "VNumber 7"]
      updateCell_check_order [of "qcState (Some viewerUser)" 3 0 1 "VNumber 7"]
      updateCell_check_order [of "qcState (Some dpUser)" 3 0 1 "VNumber 7"]
      a b c d
    by simp
qed

text \<open>
  C1. When the cell at a position of the current table is confirmed, \<open>updateCell\<close> at
  that position returns false, and the tables (so the value and the history of the cell),
  the selection, the user and the audit log are what they were.
\<close>

theorem confirmed_cell_immutable:
  assumes "currentTable s = Some t"
    and "cellAt (rows t) rowIndex colIndex = Some cell"
    and "confirmed cell"
  shows "\<exists>s'. updateCell s now rowIndex colIndex v = Inr (False, s') \<and>
           tables s' = tables s \<and> currentTableId s' = currentTableId s \<and>
           user s' = user s \<and> auditLog s' = auditLog s \<and>
           currentTable s' = Some t"
  using assms by (auto simp: updateCell_def split: option.splits)

theorem confirmed_cell_immutable_witness:
  "\<exists>s'. updateCell (qcState (Some dpUser)) 3 0 1 (VNumber 99) = Inr (False, s') \<and>
        tables s' = [qcTable]"
  using confirmed_cell_immutable [of "qcState (Some dpUser)" qcTable 0 1 qcCell 3 "VNumber 99"]
  by (auto simp add: qcCell_def)

text \<open>
  C2. A call of \<open>updateCell\<close> that returns true leaves at the position the cell that was
  there (the empty cell when there was none) with the new value and with one entry more at
  the end of its history: the earlier entries are kept in order, and the new entry holds
  the value the cell had before the call, the time of the call and the id of the user.
\<close>

theorem updateCell_appends_history:
  assumes "updateCell s now rowIndex colIndex v = Inr (True, s')"
  shows "\<exists>t u t'. currentTable s = Some t \<and> user s = Some u \<and> currentTable s' = Some t' \<and>
           (let old = (case cellAt (rows t) rowIndex colIndex of
                         Some x \<Rightarrow> x | None \<Rightarrow> emptyCell)
            in cellAt (rows t') rowIndex colIndex =
                 Some (old\<lparr>value := v,
                          history := history old @
                            [\<lparr>hvalue = value old, timestamp = now, userId = uid u\<rparr>]\<rparr>))"
proof -
  from assms obtain t u where t: "currentTable s = Some t" and u: "user s = Some u"
    using updateCell_True_pre by blast
  define rs where "rs = (if \<not> rowIndex < length (rows t)
         then pushRows (rows t) rowIndex (length (headers t)) else rows t)"
  define old where "old = (case cellAt (rows t) rowIndex colIndex of
                         Some x \<Rightarrow> x | None \<Rightarrow> emptyCell)"
  define new where "new = old\<lparr>value := v, history := history old @
                            [\<lparr>hvalue = value old, timestamp = now, userId = uid u\<rparr>]\<rparr>"
  define rs' where "rs' = rs[rowIndex := setIndex (rs ! rowIndex) colIndex new]"
  have len: "rowIndex < length rs"
    by (simp add: rs_def pushRows_length)
  have t': "currentTable s' = Some (t\<lparr>rows := rs'\<rparr>)"
    unfolding rs'_def new_def by (rule updateCell_True [OF assms t u rs_def old_def])
  have "cellAt rs' rowIndex colIndex = Some new"
    using len by (simp add: rs'_def cellAt_update_same)
  with t u t' show ?thesis
    by (simp add: Let_def old_def[symmetric] new_def)
qed

theorem updateCell_appends_history_witness:
  "\<exists>s' t'. updateCell (qcState (Some dpUser)) 5 0 0 (VString ''B-17'') = Inr (True, s') \<and>
     currentTable s' = Some t' \<and>
     cellAt (rows t') 0 0 = Some (emptyCell\<lparr>value := VString ''B-17'',
        history := [\<lparr>hvalue = VNull, timestamp = 5, userId = ''2''\<rparr>]\<rparr>)"
proof -
  have c: "canEditCell (qcState (Some dpUser)) 0 0"
    by (simp add: canEditCell_def dpUser_def emptyCell_def)
  then obtain s' where s': "updateCell (qcState (Some dpUser)) 5 0 0 (VString ''B-17'') = Inr (True, s')"
    by (simp add: updateCell_def Let_def emptyCell_def)
  from updateCell_appends_history [OF s'] s' show ?thesis
    by (auto simp add: Let_def emptyCell_def dpUser_def)
qed

text \<open>
  C10. \<open>confirmCell\<close> is not write-once. On a cell of the current table that is already
  confirmed, a call by a user who holds \<open>confirm_data\<close> succeeds again: the cell keeps
  \<open>confirmed = true\<close>, its value, history and permissions, and gets the id of the new
  user, the new time and the new comments; the notification of success is shown.
\<close>

theorem confirmCell_reconfirm:
  assumes "currentTable s = Some t" and "user s = Some u"
    and "''confirm_data'' \<in> set (upermissions u)"
    and "cellAt (rows t) rowIndex colIndex = Some cell" and "confirmed cell"
  shows "\<exists>s' t' new. confirmCell s now rowIndex colIndex comments = Inr s' \<and>
           currentTable s' = Some t' \<and>
           cellAt (rows t') rowIndex colIndex = Some new \<and>
           new = cell\<lparr>confirmedBy := Some (uid u), confirmedAt := Some now,
                       confirmedComments := comments\<rparr> \<and>
           confirmed new \<and> value new = value cell \<and> history new = history cell \<and>
           permissions new = permissions cell \<and>
           toasts s' = toasts s @ [(Success, [Lit ''Cell confirmed successfully''])]"
proof -
  from assms(4) have len: "rowIndex < length (rows t)"
    and el: "elemAt (rows t ! rowIndex) colIndex = Some cell"
    by (auto simp: cellAt_def split: if_splits)
  define new where "new = cell\<lparr>confirmed := True, confirmedBy := Some (uid u),
                              confirmedAt := Some now, confirmedComments := comments\<rparr>"
  define rs' where "rs' = (rows t)[rowIndex := setIndex (rows t ! rowIndex) colIndex new]"
  define s' where "s' = toast Success [Lit ''Cell confirmed successfully'']
       (addLog ''confirm'' ''cell''
          [Lit ''Confirmed cell at ['', Num (int rowIndex), Lit '','',
           Num (int colIndex), Lit ''] in table \"'', Str (tname t), Lit ''\"'']
          (mapCurrent (\<lambda>table. table\<lparr>rows := rs'\<rparr>) s))"
  have res: "confirmCell s now rowIndex colIndex comments = Inr s'"
    using assms(1-3) len el by (simp add: confirmCell_def s'_def rs'_def new_def)
  have "currentTable s' = currentTable (mapCurrent (\<lambda>table. table\<lparr>rows := rs'\<rparr>) s)"
    by (simp add: s'_def)
  also have "\<dots> = Some (t\<lparr>rows := rs'\<rparr>)"
    using assms(1) by (rule currentTable_mapCurrent) simp
  finally have cur: "currentTable s' = Some (t\<lparr>rows := rs'\<rparr>)" .
  have cell': "cellAt rs' rowIndex colIndex = Some new"
    using len by (simp add: rs'_def cellAt_update_same)
  have eq: "new = cell\<lparr>confirmedBy := Some (uid u), confirmedAt := Some now,
                       confirmedComments := comments\<rparr>"
    using assms(5) by (simp add: new_def)
  have "toasts s' = toasts s @ [(Success, [Lit ''Cell confirmed successfully''])]"
    by (simp add: s'_def)
  with res cur cell' eq assms(5) show ?thesis by simp
qed

theorem confirmCell_reconfirm_witness:
  "\<exists>s' t'. confirmCell (qcState (Some dpUser)) 7 0 1 (Some ''rechecked'') = Inr s' \<and>
     currentTable s' = Some t' \<and>
     cellAt (rows t') 0 1 = Some (qcCell\<lparr>confirmedBy := Some ''2'', confirmedAt := Some 7,
        confirmedComments := Some ''rechecked''\<rparr>)"
proof -
  have p: "''confirm_data'' \<in> set (upermissions dpUser)" by (simp add: dpUser_def)
  have c: "confirmed qcCell" by (simp add: qcCell_def)
  from confirmCell_reconfirm [of "qcState (Some dpUser)" qcTable dpUser 0 1 qcCell 7 "Some ''rechecked''"] p c
  show ?thesis by (auto simp: dpUser_def)
qed

section \<open>Thrown exceptions\<close>

text \<open>
  C4. The claim is that no operation throws, whatever the row and column given. On the
  example table, which has one row, \<open>confirmCell\<close> by a user holding \<open>confirm_data\<close>
  and \<open>setCellPermissions\<close> by an admin throw a TypeError at row 1: both read
  \<open>updatedRows[rowIndex][colIndex]\<close> where there is no row.
\<close>

theorem out_of_range_row_throws:
  "confirmCell (qcState (Some qaUser)) 7 1 0 None = Inl TypeError \<and>
   setCellPermissions (qcState (Some adminUser)) 1 0
     \<lparr>roles = [''admin''], editable = True, viewable = True\<rparr> = Inl TypeError"
  by (simp add: confirmCell_def setCellPermissions_def qaUser_def adminUser_def qcTable_def)

section \<open>Structure of a table\<close>

text \<open>
  C5, as stated, fails: on the example table (every row as long as the header list) a
  successful \<open>updateCell\<close> at column 4 leaves two headers and a row of length 5.
\<close>

theorem updateCell_resizes_row_counterexample:
  "map length (rows qcTable) = [length (headers qcTable)] \<and>
   map_sum id (\<lambda>(ok, s'). (ok, map_option (\<lambda>t. (length (headers t), map length (rows t)))
                               (currentTable s')))
     (updateCell (qcState (Some dpUser)) 5 0 4 (VNumber 1))
   = Inr (True, Some (2, [5]))"
  using qc_canEdit_new
  by (simp add: updateCell_def Let_def mapCurrent_def currentTable_def qcState_def addLog_def
      cellAt_def elemAt_def setIndex_def qcTable_def)

text \<open>
  C5, amended. When every row of the current table is as long as its header list, this
  still holds after \<open>addRow\<close> (which appends one row of that many empty cells), after
  \<open>addColumn\<close> (which appends the header and one empty cell to the copy of every row), and
  after \<open>updateCell\<close> at a column below the number of headers, its extension of the rows
  included; a table made by \<open>createTable\<close> has the rows asked for, each as long as its
  header list. \<open>confirmCell\<close>, \<open>setCellPermissions\<close> and \<open>confirmTable\<close>, when they
  return, change neither the headers nor the length of any row.
\<close>

theorem structural_consistency:
  assumes "currentTable s = Some t"
    and "\<forall>row \<in> set (rows t). length row = length (headers t)"
  shows "(\<exists>s' t'. addRow s = Inr s' \<and> currentTable s' = Some t' \<and>
            (\<forall>row \<in> set (rows t'). length row = length (headers t')) \<and>
            (user s \<noteq> None \<longrightarrow> headers t' = headers t \<and>
               rows t' = rows t @ [emptyRow (length (headers t))])) \<and>
         (\<exists>s' t'. addColumn s header = Inr s' \<and> currentTable s' = Some t' \<and>
            (\<forall>row \<in> set (rows t'). length row = length (headers t')) \<and>
            (user s \<noteq> None \<longrightarrow> headers t' = headers t @ [header] \<and>
               rows t' = map (\<lambda>row. spread row @ [Elem emptyCell]) (rows t))) \<and>
         (colIndex < length (headers t) \<longrightarrow>
            (\<exists>ok s' t'. updateCell s now rowIndex colIndex v = Inr (ok, s') \<and>
               currentTable s' = Some t' \<and> headers t' = headers t \<and>
               (\<forall>row \<in> set (rows t'). length row = length (headers t')))) \<and>
         (user s \<noteq> None \<longrightarrow>
            (\<exists>s' nt. createTable s newId name hs n = Inr s' \<and> tables s' = tables s @ [nt] \<and>
               headers nt = hs \<and>
               length (rows nt) = (case n of None \<Rightarrow> 10 | Some k \<Rightarrow> k) \<and>
               (\<forall>row \<in> set (rows nt). length row = length (headers nt)))) \<and>
         (\<forall>s'. confirmCell s now rowIndex colIndex comments = Inr s' \<longrightarrow>
            (\<exists>t'. currentTable s' = Some t' \<and> headers t' = headers t \<and>
               map length (rows t') = map length (rows t))) \<and>
         (\<forall>s'. setCellPermissions s rowIndex colIndex perms = Inr s' \<longrightarrow>
            (\<exists>t'. currentTable s' = Some t' \<and> headers t' = headers t \<and>
               map length (rows t') = map length (rows t))) \<and>
         (\<forall>s'. confirmTable s now comments = Inr s' \<longrightarrow>
            (\<exists>t'. currentTable s' = Some t' \<and> headers t' = headers t \<and>
               map length (rows t') = map length (rows t)))"
proof (intro conjI allI impI)
  show "\<exists>s' t'. addRow s = Inr s' \<and> currentTable s' = Some t' \<and>
            (\<forall>row \<in> set (rows t'). length row = length (headers t')) \<and>
            (user s \<noteq> None \<longrightarrow> headers t' = headers t \<and>
               rows t' = rows t @ [emptyRow (length (headers t))])"
    using assms by (rule addRow_consistent)
  show "\<exists>s' t'. addColumn s header = Inr s' \<and> currentTable s' = Some t' \<and>
            (\<forall>row \<in> set (rows t'). length row = length (headers t')) \<and>
            (user s \<noteq> None \<longrightarrow> headers t' = headers t @ [header] \<and>
               rows t' = map (\<lambda>row. spread row @ [Elem emptyCell]) (rows t))"
    using assms by (rule addColumn_consistent)
next
  assume "colIndex < length (headers t)"
  with assms show "\<exists>ok s' t'. updateCell s now rowIndex colIndex v = Inr (ok, s') \<and>
               currentTable s' = Some t' \<and> headers t' = headers t \<and>
               (\<forall>row \<in> set (rows t'). length row = length (headers t'))"
    by (rule updateCell_consistent)
next
  assume "user s \<noteq> None"
  then show "\<exists>s' nt. createTable s newId name hs n = Inr s' \<and> tables s' = tables s @ [nt] \<and>
               headers nt = hs \<and>
               length (rows nt) = (case n of None \<Rightarrow> 10 | Some k \<Rightarrow> k) \<and>
               (\<forall>row \<in> set (rows nt). length row = length (headers nt))"
    by (rule createTable_consistent)
next
  fix s'
  assume "confirmCell s now rowIndex colIndex comments = Inr s'"
  with assms(1) show "\<exists>t'. currentTable s' = Some t' \<and> headers t' = headers t \<and>
               map length (rows t') = map length (rows t)"
    by (rule shape_confirmCell)
next
  fix s'
  assume "setCellPermissions s rowIndex colIndex perms = Inr s'"
  with assms(1) show "\<exists>t'. currentTable s' = Some t' \<and> headers t' = headers t \<and>
               map length (rows t') = map length (rows t)"
    by (rule shape_setCellPermissions)
next
  fix s'
  assume "confirmTable s now comments = Inr s'"
  with assms(1) show "\<exists>t'. currentTable s' = Some t' \<and> headers t' = headers t \<and>
               map length (rows t') = map length (rows t)"
    by (rule shape_confirmTable)
qed

theorem structural_consistency_witness:
  "(\<exists>s' t'. addRow (qcState (Some adminUser)) = Inr s' \<and> currentTable s' = Some t' \<and>
      headers t' = [''Batch'', ''Result''] \<and> map length (rows t') = [2, 2]) \<and>
   (\<exists>s' t'. addColumn (qcState (Some adminUser)) ''Unit'' = Inr s' \<and>
      currentTable s' = Some t' \<and>
      headers t' = [''Batch'', ''Result'', ''Unit''] \<and> map length (rows t') = [3]) \<and>
   (\<exists>ok s' t'. updateCell (qcState (Some adminUser)) 5 3 1 (VNumber 1) = Inr (ok, s') \<and>
      currentTable s' = Some t' \<and> (\<forall>row \<in> set (rows t'). length row = 2)) \<and>
   (\<exists>s' nt. createTable (qcState (Some adminUser)) ''t2'' ''Run 2'' [''A'', ''B'', ''C''] (Some 4)
        = Inr s' \<and> tables s' = [qcTable, nt] \<and> length (rows nt) = 4 \<and>
      (\<forall>row \<in> set (rows nt). length row = 3)) \<and>
   (\<exists>s' t'. confirmCell (qcState (Some adminUser)) 5 0 0 None = Inr s' \<and>
      currentTable s' = Some t' \<and> map length (rows t') = [2]) \<and>
   (\<exists>s' t'. setCellPermissions (qcState (Some adminUser)) 0 0 (defaultPermissions 0) = Inr s' \<and>
      currentTable s' = Some t' \<and> map length (rows t') = [2]) \<and>
   (\<exists>s' t'. confirmTable (qcState (Some adminUser)) 5 None = Inr s' \<and>
      currentTable s' = Some t' \<and> map length (rows t') = [2])"
proof -
  have cur: "currentTable (qcState (Some adminUser)) = Some qcTable" by simp
  note a = structural_consistency [OF cur qc_consistent, where header = "''Unit''"
      and colIndex = 1 and now = 5 and rowIndex = 3 and v = "VNumber 1" and newId = "''t2''"
      and name = "''Run 2''" and hs = "[''A'', ''B'', ''C'']" and n = "Some 4"
      and comments = None and perms = "defaultPermissions 0"]
  note c = structural_consistency [OF cur qc_consistent, where header = "''Unit''"
      and colIndex = 0 and now = 5 and rowIndex = 0 and v = "VNumber 1" and newId = "''t2''"
      and name = "''Run 2''" and hs = "[''A'', ''B'', ''C'']" and n = "Some 4"
      and comments = None and perms = "defaultPermissions 0"]
  have h: "headers qcTable = [''Batch'', ''Result'']"
    "rows qcTable = [[Elem emptyCell, Elem qcCell]]"
    by (simp_all add: qcTable_def)
  have p: "''confirm_data'' \<in> set (upermissions adminUser)" "role adminUser = Admin"
    by (simp_all add: adminUser_def)
  have e6: "\<exists>s'. confirmCell (qcState (Some adminUser)) 5 0 0 None = Inr s'"
    using p by (simp add: confirmCell_def Let_def h elemAt_def)
  have e7: "\<exists>s'. setCellPermissions (qcState (Some adminUser)) 0 0 (defaultPermissions 0) = Inr s'"
    using p by (simp add: setCellPermissions_def Let_def h elemAt_def)
  have e8: "\<exists>s'. confirmTable (qcState (Some adminUser)) 5 None = Inr s'"
    using p by (simp add: confirmTable_def Let_def)
  from a have r1: "\<exists>s' t'. addRow (qcState (Some adminUser)) = Inr s' \<and>
      currentTable s' = Some t' \<and>
      headers t' = [''Batch'', ''Result''] \<and> map length (rows t') = [2, 2]"
    by (auto simp: h)
  from a have r2: "\<exists>s' t'. addColumn (qcState (Some adminUser)) ''Unit'' = Inr s' \<and>
      currentTable s' = Some t' \<and>
      headers t' = [''Batch'', ''Result'', ''Unit''] \<and> map length (rows t') = [3]"
    by (auto simp: h)
  from a have r3: "\<exists>ok s' t'. updateCell (qcState (Some adminUser)) 5 3 1 (VNumber 1) = Inr (ok, s') \<and>
      currentTable s' = Some t' \<and> (\<forall>row \<in> set (rows t'). length row = 2)"
    by (auto simp: h)
  from a have r5: "\<exists>s' nt. createTable (qcState (Some adminUser)) ''t2'' ''Run 2''
        [''A'', ''B'', ''C''] (Some 4) = Inr s' \<and>
      tables s' = [qcTable, nt] \<and> length (rows nt) = 4 \<and>
      (\<forall>row \<in> set (rows nt). length row = 3)"
    by auto
  from c e6 have r6: "\<exists>s' t'. confirmCell (qcState (Some adminUser)) 5 0 0 None = Inr s' \<and>
      currentTable s' = Some t' \<and> map length (rows t') = [2]"
    by (auto simp: h)
  from c e7 have r7: "\<exists>s' t'. setCellPermissions (qcState (Some adminUser)) 0 0
        (defaultPermissions 0) = Inr s' \<and>
      currentTable s' = Some t' \<and> map length (rows t') = [2]"
    by (auto simp: h)
  from c e8 have r8: "\<exists>s' t'. confirmTable (qcState (Some adminUser)) 5 None = Inr s' \<and>
      currentTable s' = Some t' \<and> map length (rows t') = [2]"
    by (auto simp: h)
  from r1 r2 r3 r5 r6 r7 r8 show ?thesis by blast
qed

section \<open>Version of a table\<close>

text \<open>
  C8. \<open>createTable\<close> by a signed-in user appends a table of version 1 and changes no
  other version. \<open>confirmTable\<close> by a user holding \<open>confirm_data\<close>, with a table
  selected, makes the version of the current table one more than it was (of every table
  with the id of the current one) and changes no other version. Whenever they return,
  \<open>selectTable\<close>, \<open>addRow\<close>, \<open>addColumn\<close>, \<open>updateCell\<close>, \<open>confirmCell\<close> and
  \<open>setCellPermissions\<close> leave the versions of all tables as they were.
\<close>

theorem version_changes_only_by_confirmTable:
  "(\<forall>s'. createTable s newId name hs n = Inr s' \<longrightarrow>
       map version (tables s') = map version (tables s) @ (if user s = None then [] else [1])) \<and>
   (\<forall>t u. currentTable s = Some t \<and> user s = Some u \<and>
          ''confirm_data'' \<in> set (upermissions u) \<longrightarrow>
       (\<exists>s' t'. confirmTable s now comments = Inr s' \<and> currentTable s' = Some t' \<and>
          version t' = version t + 1 \<and>
          map version (tables s') =
            map (\<lambda>x. if tid x = tid t then version t + 1 else version x) (tables s))) \<and>
   (\<forall>s'. selectTable s i = Inr s' \<longrightarrow> map version (tables s') = map version (tables s)) \<and>
   (\<forall>s'. addRow s = Inr s' \<longrightarrow> map version (tables s') = map version (tables s)) \<and>
   (\<forall>s'. addColumn s header = Inr s' \<longrightarrow> map version (tables s') = map version (tables s)) \<and>
   (\<forall>ok s'. updateCell s now rowIndex colIndex v = Inr (ok, s') \<longrightarrow>
       map version (tables s') = map version (tables s)) \<and>
   (\<forall>s'. confirmCell s now rowIndex colIndex comments = Inr s' \<longrightarrow>
       map version (tables s') = map version (tables s)) \<and>
   (\<forall>s'. setCellPermissions s rowIndex colIndex perms = Inr s' \<longrightarrow>
       map version (tables s') = map version (tables s))"
proof (intro conjI allI impI)
  fix t u
  assume "currentTable s = Some t \<and> user s = Some u \<and>
          ''confirm_data'' \<in> set (upermissions u)"
  then show "\<exists>s' t'. confirmTable s now comments = Inr s' \<and> currentTable s' = Some t' \<and>
          version t' = version t + 1 \<and>
          map version (tables s') =
            map (\<lambda>x. if tid x = tid t then version t + 1 else version x) (tables s)"
    using confirmTable_version [of s t u now comments] by blast
qed (erule versions_createTable versions_selectTable versions_addRow versions_addColumn
    versions_updateCell versions_confirmCell versions_setCellPermissions)+

theorem version_changes_only_by_confirmTable_witness:
  "(\<exists>s'. createTable (qcState (Some dpUser)) ''t2'' ''Run 2'' [''A''] None = Inr s' \<and>
      map version (tables s') = [1, 1]) \<and>
   (\<exists>s' t'. confirmTable (qcState (Some dpUser)) 9 None = Inr s' \<and>
      currentTable s' = Some t' \<and> version t' = 2 \<and> map version (tables s') = [2]) \<and>
   (\<exists>s'. selectTable (qcState (Some dpUser)) ''t1'' = Inr s' \<and> map version (tables s') = [1]) \<and>
   (\<exists>s'. addRow (qcState (Some dpUser)) = Inr s' \<and> map version (tables s') = [1]) \<and>
   (\<exists>s'. addColumn (qcState (Some dpUser)) ''Unit'' = Inr s' \<and>
      map version (tables s') = [1]) \<and>
   (\<exists>ok s'. updateCell (qcState (Some dpUser)) 9 0 0 (VNumber 3) = Inr (ok, s') \<and>
      map version (tables s') = [1]) \<and>
   (\<exists>s'. confirmCell (qcState (Some dpUser)) 9 0 0 None = Inr s' \<and>
      map version (tables s') = [1]) \<and>
   (\<exists>s'. setCellPermissions (qcState (Some dpUser)) 0 0 (defaultPermissions 0) = Inr s' \<and>
      map version (tables s') = [1])"
proof -
  note v = version_changes_only_by_confirmTable [of "qcState (Some dpUser)" "''t2''" "''Run 2''"
      "[''A'']" None 9 None "''t1''" "''Unit''" 0 0 "VNumber 3" "defaultPermissions 0"]
  have p: "''confirm_data'' \<in> set (upermissions dpUser)"
    by (simp add: dpUser_def)
  have t: "tid qcTable = ''t1''" "version qcTable = 1"
    by (simp_all add: qcTable_def)
  have e1: "\<exists>s'. createTable (qcState (Some dpUser)) ''t2'' ''Run 2'' [''A''] None = Inr s'"
    by (simp add: createTable_def Let_def)
  have e3: "\<exists>s'. selectTable (qcState (Some dpUser)) ''t1'' = Inr s'"
    by (simp add: selectTable_def t)
  have e4: "\<exists>s'. addRow (qcState (Some dpUser)) = Inr s'"
    by (simp add: addRow_def Let_def)
  have e5: "\<exists>s'. addColumn (qcState (Some dpUser)) ''Unit'' = Inr s'"
    by (simp add: addColumn_def Let_def)
  have e6: "\<exists>ok s'. updateCell (qcState (Some dpUser)) 9 0 0 (VNumber 3) = Inr (ok, s')"
    by (auto simp: updateCell_def Let_def)
  have e7: "\<exists>s'. confirmCell (qcState (Some dpUser)) 9 0 0 None = Inr s'"
    using p by (simp add: confirmCell_def Let_def qcTable_def elemAt_def)
  have e8: "\<exists>s'. setCellPermissions (qcState (Some dpUser)) 0 0 (defaultPermissions 0) = Inr s'"
    by (simp add: setCellPermissions_def dpUser_def)
  from v p have r2: "\<exists>s' t'. confirmTable (qcState (Some dpUser)) 9 None = Inr s' \<and>
      currentTable s' = Some t' \<and> version t' = 2 \<and> map version (tables s') = [2]"
    by (auto simp: t)
  from e1 v have r1: "\<exists>s'. createTable (qcState (Some dpUser)) ''t2'' ''Run 2'' [''A''] None = Inr s' \<and>
      map version (tables s') = [1, 1]"
    by (auto simp: t)
  from e3 v have r3: "\<exists>s'. selectTable (qcState (Some dpUser)) ''t1'' = Inr s' \<and>
      map version (tables s') = [1]"
    by (auto simp: t)
  from e4 v have r4: "\<exists>s'. addRow (qcState (Some dpUser)) = Inr s' \<and> map version (tables s') = [1]"
    by (auto simp: t)
  from e5 v have r5: "\<exists>s'. addColumn (qcState (Some dpUser)) ''Unit'' = Inr s' \<and>
      map version (tables s') = [1]"
    by (auto simp: t)
  from e6 v have r6: "\<exists>ok s'. updateCell (qcState (Some dpUser)) 9 0 0 (VNumber 3) = Inr (ok, s') \<and>
      map version (tables s') = [1]"
    by (auto simp: t)
  from e7 v have r7: "\<exists>s'. confirmCell (qcState (Some dpUser)) 9 0 0 None = Inr s' \<and>
      map version (tables s') = [1]"
    by (auto simp: t)
  from e8 v have r8: "\<exists>s'. setCellPermissions (qcState (Some dpUser)) 0 0 (defaultPermissions 0) = Inr s' \<and>
      map version (tables s') = [1]"
    by (auto simp: t)
  from r1 r2 r3 r4 r5 r6 r7 r8 show ?thesis by blast
qed

section \<open>CSV export\<close>

text \<open>
  C9. The claim is that every field with a comma or a quote is wrapped in quotes. The
  header line is written by \<open>headers.join(',')\<close> alone: with the header
  \<open>Batch, lot\<close> and the same text in the first cell, the export writes the header
  unquoted and the cell quoted.
\<close>

theorem csv_header_not_quoted:
  "handleExportCSV numToString True
     (Some (qcTable\<lparr>headers := [''Batch, lot'', ''Result''],
                    rows := [[Elem (emptyCell\<lparr>value := VString ''Batch, lot''\<rparr>), Elem emptyCell]]\<rparr>))
   = Inr (Some (''Batch, lot,Result'' @ [CHR 0x0A] @
                ''\"Batch, lot\",'' @ [CHR 0x0A]))"
  by (simp add: handleExportCSV_def csvField_def doubleQuotes_def emptyCell_def)

end
